theory Spec2Isabelle
  imports Complex_Main "HOL-Library.Sublist"
begin

unbundle bit_operations_syntax

section \<open>Python strings\<close>

text \<open>
  A Python \<open>str\<close> is a sequence of Unicode code points, and \<open>len\<close>, iteration and
  \<open>re\<close> all work per code point. A character is therefore modelled by its code point
  and a string by the list of them. String literals of the source are written as HOL
  strings and converted with \<open>py\<close>; the country labels, which are literals only, stay
  HOL strings.
\<close>

type_synonym pychar = nat
type_synonym pystr = "pychar list"

definition py :: "string \<Rightarrow> pystr" where
  "py s = map of_char s"

text \<open>\<open>text.replace(" ", "")\<close>: every occurrence of U+0020 is removed.\<close>

definition remove_spaces :: "pystr \<Rightarrow> pystr" where
  "remove_spaces text = filter (\<lambda>c. c \<noteq> of_char CHR '' '') text"

section \<open>The regular expressions of the pattern table\<close>

text \<open>
  Every pattern of \<open>LICENSE_PLATE_PATTERNS\<close> is a sequence of pieces: a bracket class
  of inclusive ranges such as \<open>[A-Z0-9]\<close>, or a literal character, with a repetition
  \<open>{lo,hi}\<close> (\<open>{n}\<close> is \<open>{n,n}\<close>, a bare literal is \<open>{1,1}\<close>).
\<close>

datatype atom = Chars "(char \<times> char) list" | Lit char

datatype piece = Piece atom nat nat

type_synonym pattern = "piece list"

fun atom_ok :: "atom \<Rightarrow> pychar \<Rightarrow> bool" where
  "atom_ok (Chars rs) c = list_ex (\<lambda>(lo, hi). of_char lo \<le> c \<and> c \<le> of_char hi) rs"
| "atom_ok (Lit d) c = (c = of_char d)"

fun first_some :: "('a \<Rightarrow> 'b option) \<Rightarrow> 'a list \<Rightarrow> 'b option" where
  "first_some f [] = None"
| "first_some f (k # ks) = (case f k of Some r \<Rightarrow> Some r | None \<Rightarrow> first_some f ks)"

text \<open>
  \<open>re.match(pattern, s)\<close>: the match is anchored at the start of \<open>s\<close> and need not
  reach its end. Each repetition is greedy: it takes as many characters as the class
  and its upper bound allow and gives them back one at a time, down to the lower bound,
  until the rest of the pattern matches. The result is the end offset of the match
  object, or \<open>None\<close>; the source only tests it for truth.
\<close>

fun re_match :: "pattern \<Rightarrow> pystr \<Rightarrow> nat option" where
  "re_match [] s = Some 0"
| "re_match (Piece a lo hi # ps) s =
     (let n = length (takeWhile (atom_ok a) (take hi s))
      in first_some (\<lambda>k. map_option (\<lambda>e. k + e) (re_match ps (drop k s)))
           (rev [lo..<Suc n]))"

section \<open>The country matcher\<close>

text \<open>
  The dict literal of the source; a Python dict iterates in insertion order, so it is
  an association list in the order written.
\<close>

definition LICENSE_PLATE_PATTERNS :: "(string \<times> pattern) list" where
  "LICENSE_PLATE_PATTERNS =
    [(''USA'', [Piece (Chars [(CHR ''A'', CHR ''Z''), (CHR ''0'', CHR ''9'')]) 1 7]),
     (''India'', [Piece (Chars [(CHR ''A'', CHR ''Z'')]) 2 2,
                  Piece (Chars [(CHR ''0'', CHR ''9'')]) 2 2,
                  Piece (Chars [(CHR ''A'', CHR ''Z'')]) 1 2,
                  Piece (Chars [(CHR ''0'', CHR ''9'')]) 4 4]),
     (''Nepal'', [Piece (Chars [(CHR ''A'', CHR ''Z'')]) 2 2,
                  Piece (Lit CHR ''-'') 1 1,
                  Piece (Chars [(CHR ''0'', CHR ''9'')]) 1 4,
                  Piece (Lit CHR ''-'') 1 1,
                  Piece (Chars [(CHR ''A'', CHR ''Z'')]) 1 2]),
     (''Australia'', [Piece (Chars [(CHR ''A'', CHR ''Z'')]) 1 3,
                      Piece (Chars [(CHR ''0'', CHR ''9'')]) 1 4]),
     (''Canada'', [Piece (Chars [(CHR ''A'', CHR ''Z''), (CHR ''0'', CHR ''9'')]) 1 7])]"

text \<open>The loop of \<open>detect_country\<close> over the items of a table.\<close>

fun detect_country_in :: "(string \<times> pattern) list \<Rightarrow> pystr \<Rightarrow> string" where
  "detect_country_in [] text = ''Unknown''"
| "detect_country_in ((country, pattern) # rest) text =
     (if re_match pattern (remove_spaces text) \<noteq> None then country
      else detect_country_in rest text)"

definition detect_country :: "pystr \<Rightarrow> string" where
  "detect_country text = detect_country_in LICENSE_PLATE_PATTERNS text"

section \<open>Frames, contours and the external libraries\<close>

text \<open>
  A frame is a numpy array of shape (rows, columns, 3): a list of rows of BGR pixels.
  A contour is the point array of \<open>cv2.findContours\<close>. An OCR result is the triple
  (bounding box, text, confidence) of \<open>reader.readtext\<close>; confidences and areas are
  Python floats, read here as the real numbers they denote. The thresholds they are
  compared with are either exact doubles (1000, 1.5, 5.0) or, for 0.2, a double that no
  other double separates from the real 0.2, so the comparisons agree with the real ones.
\<close>

type_synonym color = "nat \<times> nat \<times> nat"
type_synonym image = "color list list"
type_synonym gray = "nat list list"
type_synonym contour = "(int \<times> int) list"
type_synonym ocr_result = "(int \<times> int) list \<times> pystr \<times> real"
type_synonym reader = "image \<Rightarrow> ocr_result list"
type_synonym plate = "pystr \<times> string \<times> real"

text \<open>
  The functions of \<open>cv2\<close> and the \<open>str\<close> methods the pipeline calls are not part of
  the repository; they are parameters of the model. \<open>format_2f\<close> is the format
  specification \<open>:.2f\<close>; \<open>clahe_apply\<close> is \<open>createCLAHE(clipLimit=2.0,
  tileGridSize=(8, 8)).apply\<close>; \<open>findContours\<close> is called with \<open>RETR_TREE\<close> and
  \<open>CHAIN_APPROX_SIMPLE\<close>, \<open>putText\<close> with \<open>FONT_HERSHEY_SIMPLEX\<close>.
\<close>

record ext =
  isalnum :: "pychar \<Rightarrow> bool"
  isspace :: "pychar \<Rightarrow> bool"
  format_2f :: "real \<Rightarrow> pystr"
  cvtColor :: "image \<Rightarrow> gray"
  clahe_apply :: "gray \<Rightarrow> gray"
  bilateralFilter :: "gray \<Rightarrow> nat \<Rightarrow> real \<Rightarrow> real \<Rightarrow> gray"
  Canny :: "gray \<Rightarrow> real \<Rightarrow> real \<Rightarrow> gray"
  findContours :: "gray \<Rightarrow> contour list"
  contourArea :: "contour \<Rightarrow> real"
  arcLength :: "contour \<Rightarrow> bool \<Rightarrow> real"
  approxPolyDP :: "contour \<Rightarrow> real \<Rightarrow> bool \<Rightarrow> contour"
  boundingRect :: "contour \<Rightarrow> nat \<times> nat \<times> nat \<times> nat"
  putText :: "image \<Rightarrow> pystr \<Rightarrow> int \<times> int \<Rightarrow> real \<Rightarrow> color \<Rightarrow> nat \<Rightarrow> image"
  rectangle :: "image \<Rightarrow> nat \<times> nat \<Rightarrow> nat \<times> nat \<Rightarrow> color \<Rightarrow> nat \<Rightarrow> image"

text \<open>
  A slice \<open>xs[a:b]\<close> with non-negative bounds is clipped to the list, and
  \<open>frame[y:y + h, x:x + w]\<close> slices rows, then columns. The slice is a view of the
  frame; the model takes its content at the moment it is read.
\<close>

definition slice :: "nat \<Rightarrow> nat \<Rightarrow> 'a list \<Rightarrow> 'a list" where
  "slice a b xs = take (b - a) (drop a xs)"

definition crop :: "image \<Rightarrow> nat \<times> nat \<times> nat \<times> nat \<Rightarrow> image" where
  "crop frame r = (case r of (x, y, w, h) \<Rightarrow> map (slice x (x + w)) (slice y (y + h) frame))"

text \<open>
  \<open>roi.shape[1]\<close>. The source reads it only after \<open>roi.shape[0] < 20\<close> has failed,
  so only on an image with rows.
\<close>

definition shape1 :: "image \<Rightarrow> nat" where
  "shape1 img = (if img = [] then 0 else length (img ! 0))"

section \<open>The frame pipeline\<close>

datatype error = ZeroDivisionError | CvError

text \<open>
  Besides the frame, which the drawing calls update in place, and the list
  \<open>detected_plates\<close>, the state records the calls the loop makes to its collaborators,
  in order: \<open>Readtext cnt roi\<close> for \<open>reader.readtext(roi)\<close> on the region of contour
  \<open>cnt\<close>, and \<open>Draw r p\<close> for the label and rectangle drawn for plate \<open>p\<close>
  at the bounding rectangle \<open>r\<close>.
\<close>

datatype action = Readtext contour image | Draw "nat \<times> nat \<times> nat \<times> nat" plate

record pstate =
  frame :: image
  detected_plates :: "plate list"
  trace :: "action list"

fun ocr_calls :: "action list \<Rightarrow> (contour \<times> image) list" where
  "ocr_calls [] = []"
| "ocr_calls (Readtext cnt roi # tr) = (cnt, roi) # ocr_calls tr"
| "ocr_calls (Draw r p # tr) = ocr_calls tr"

fun is_Draw :: "action \<Rightarrow> bool" where
  "is_Draw (Draw r p) = True"
| "is_Draw (Readtext cnt roi) = False"

definition preprocess_image :: "ext \<Rightarrow> image \<Rightarrow> gray \<times> image" where
  "preprocess_image E img =
     (let gray = cvtColor E img;
          gray = clahe_apply E gray;
          gray = bilateralFilter E gray 11 17 17
      in (gray, img))"

text \<open>The body of the loop over the OCR results of one region (lines 49 to 58).\<close>

definition result_body ::
  "ext \<Rightarrow> nat \<times> nat \<times> nat \<times> nat \<Rightarrow> ocr_result \<Rightarrow> pstate \<Rightarrow> pstate" where
  "result_body E r res st =
     (case (r, res) of ((x, y, w, h), (bbox, text, prob)) \<Rightarrow>
        if prob < 0.2 then st
        else
          let text = filter (\<lambda>e. isalnum E e \<or> isspace E e) text
          in if length text \<ge> 4 then
               let country = detect_country text;
                   plate_info = text @ py '' ('' @ py country @ py '') '' @ format_2f E prob;
                   f1 = putText E (frame st) plate_info (int x, int y - 10) 0.8 (0, 255, 0) 2;
                   f2 = rectangle E f1 (x, y) (x + w, y + h) (0, 255, 0) 2
               in st\<lparr>frame := f2,
                      detected_plates := detected_plates st @ [(text, country, prob)],
                      trace := trace st @ [Draw (x, y, w, h) (text, country, prob)]\<rparr>
             else st)"

fun results_loop ::
  "ext \<Rightarrow> nat \<times> nat \<times> nat \<times> nat \<Rightarrow> ocr_result list \<Rightarrow> pstate \<Rightarrow> pstate" where
  "results_loop E r [] st = st"
| "results_loop E r (res # rest) st = results_loop E r rest (result_body E r res st)"

text \<open>
  The body of the loop over the contours (lines 35 to 58). \<open>float(w) / h\<close> raises
  \<open>ZeroDivisionError\<close> when \<open>h\<close> is 0; the state it leaves behind goes with the
  error. \<open>w\<close> and \<open>h\<close> are pixel counts, for which the rounded quotient compares
  with 1.5 and 5.0 as the exact one does. The reader is a function of the image it is
  given.
\<close>

definition contour_body ::
  "ext \<Rightarrow> reader \<Rightarrow> contour \<Rightarrow> pstate \<Rightarrow> error \<times> pstate + pstate" where
  "contour_body E rd cnt st =
     (let area = contourArea E cnt
      in if area < 1000 then Inr st
         else
           let approx = approxPolyDP E cnt (0.02 * arcLength E cnt True) True
           in if length approx \<ge> 4 then
                (case boundingRect E cnt of (x, y, w, h) \<Rightarrow>
                   if h = 0 then Inl (ZeroDivisionError, st)
                   else
                     let aspect_ratio = real w / real h
                     in if 1.5 \<le> aspect_ratio \<and> aspect_ratio \<le> 5.0 then
                          let roi = crop (frame st) (x, y, w, h)
                          in if length roi < 20 \<or> shape1 roi < 80 then Inr st
                             else
                               let result = rd roi;
                                   st1 = st\<lparr>trace := trace st @ [Readtext cnt roi]\<rparr>
                               in if result \<noteq> [] then
                                    Inr (results_loop E (x, y, w, h) result st1)
                                  else Inr st1
                        else Inr st)
              else Inr st)"

fun contours_loop ::
  "ext \<Rightarrow> reader \<Rightarrow> contour list \<Rightarrow> pstate \<Rightarrow> error \<times> pstate + pstate" where
  "contours_loop E rd [] st = Inr st"
| "contours_loop E rd (cnt # cs) st =
     (case contour_body E rd cnt st of
        Inl e \<Rightarrow> Inl e
      | Inr st' \<Rightarrow> contours_loop E rd cs st')"

definition process_frame :: "ext \<Rightarrow> image \<Rightarrow> reader \<Rightarrow> error \<times> pstate + pstate" where
  "process_frame E frame0 rd =
     (case preprocess_image E frame0 of (gray, frame1) \<Rightarrow>
        let edges = Canny E gray 30 200;
            contours = findContours E edges
        in contours_loop E rd contours
             \<lparr>frame = frame1, detected_plates = [], trace = []\<rparr>)"

text \<open>The state a call ends in, whether it returns or raises.\<close>

fun final_state :: "error \<times> pstate + pstate \<Rightarrow> pstate" where
  "final_state (Inl (e, st)) = st"
| "final_state (Inr st) = st"

section \<open>Image and video front ends\<close>

text \<open>
  The front ends only print and call the collaborators, so each is modelled by the
  sequence of those calls. \<open>ProcessFrame f\<close> marks a call of \<open>process_frame\<close> on
  frame \<open>f\<close>, \<open>Display f\<close> a call of \<open>display_frame_with_matplotlib\<close>. What the
  outside world answers is a parameter: what \<open>cv2.imread\<close> returns for a path, whether
  a capture is opened, what the \<open>n\<close>-th \<open>cap.read()\<close> and \<open>cv2.waitKey(1)\<close> return,
  whether \<open>cv2.imshow\<close> raises \<open>cv2.error\<close>, the reader \<open>easyocr.Reader(['en'])\<close>
  builds, and \<open>str(e)\<close> of an exception.
\<close>

datatype source = File pystr | Webcam

fun source_str :: "source \<Rightarrow> pystr" where
  "source_str (File p) = p"
| "source_str Webcam = py ''0''"

datatype event =
    Print pystr
  | Input pystr
  | MakeReader
  | Imread pystr
  | ProcessFrame image
  | Display image
  | VideoCapture source
  | CapRead
  | Imshow image
  | WaitKey
  | CapRelease
  | DestroyAllWindows

record world =
  imread :: "pystr \<Rightarrow> image option"
  isOpened :: "source \<Rightarrow> bool"
  cap_read :: "source \<Rightarrow> nat \<Rightarrow> image option"
  waitKey :: "nat \<Rightarrow> int"
  imshow_raises :: bool
  easyocr_Reader :: reader
  error_str :: "error \<Rightarrow> pystr"

definition print_plate :: "ext \<Rightarrow> plate \<Rightarrow> event" where
  "print_plate E p =
     (case p of (plate, country, prob) \<Rightarrow>
        Print (py ''Detected Plate: '' @ plate @ py '' - Country: '' @ py country
               @ py '' - Confidence: '' @ format_2f E prob))"

definition process_image ::
  "ext \<Rightarrow> world \<Rightarrow> pystr \<Rightarrow> reader \<Rightarrow> event list \<times> error option" where
  "process_image E W image_path rd =
     (case imread W image_path of
        None \<Rightarrow>
          ([Imread image_path, Print (py ''Error: Cannot load image '' @ image_path)], None)
      | Some img \<Rightarrow>
          (case process_frame E img rd of
             Inl (e, st) \<Rightarrow> ([Imread image_path, ProcessFrame img], Some e)
           | Inr st \<Rightarrow>
               ([Imread image_path, ProcessFrame img]
                  @ map (print_plate E) (detected_plates st)
                  @ [Display (frame st)], None)))"

text \<open>
  The \<open>while True\<close> loop of \<open>play_video\<close>, from the \<open>n\<close>-th read on. A source such as
  a webcam may deliver frames for ever, so the loop need not return: \<open>None\<close> is a run
  that never ends.
\<close>

partial_function (option) video_loop ::
  "ext \<Rightarrow> world \<Rightarrow> reader \<Rightarrow> source \<Rightarrow> bool \<Rightarrow> nat \<Rightarrow> event list
     \<Rightarrow> (event list \<times> error option) option" where
  "video_loop E W rd src use_matplotlib n tr =
     (case cap_read W src n of
        None \<Rightarrow>
          Some (tr @ [CapRead, Print (py ''End of video or error reading frame.'')], None)
      | Some fr \<Rightarrow>
          (case process_frame E fr rd of
             Inl (e, st) \<Rightarrow> Some (tr @ [CapRead, ProcessFrame fr], Some e)
           | Inr st \<Rightarrow>
               (let tr1 = tr @ [CapRead, ProcessFrame fr]
                            @ map (print_plate E) (detected_plates st)
                in if use_matplotlib then
                     video_loop E W rd src use_matplotlib (Suc n) (tr1 @ [Display (frame st)])
                   else if imshow_raises W then
                     Some (tr1 @ [Imshow (frame st)], Some CvError)
                   else if waitKey W n AND 255 = of_char CHR ''q'' then
                     Some (tr1 @ [Imshow (frame st), WaitKey], None)
                   else
                     video_loop E W rd src use_matplotlib (Suc n)
                       (tr1 @ [Imshow (frame st), WaitKey]))))"

definition play_video ::
  "ext \<Rightarrow> world \<Rightarrow> source \<Rightarrow> reader \<Rightarrow> bool \<Rightarrow> (event list \<times> error option) option" where
  "play_video E W video_path rd use_matplotlib =
     (if \<not> isOpened W video_path then
        Some ([VideoCapture video_path,
               Print (py ''Error: Unable to open video file: '' @ source_str video_path)], None)
      else
        (case video_loop E W rd video_path use_matplotlib 0
                [VideoCapture video_path, Print (py ''Press 'q' to quit.'')] of
           None \<Rightarrow> None
         | Some (tr, Some e) \<Rightarrow> Some (tr, Some e)
         | Some (tr, None) \<Rightarrow>
             Some (tr @ [CapRelease] @ (if \<not> use_matplotlib then [DestroyAllWindows] else []),
                   None)))"

text \<open>
  \<open>main\<close>, given what the operator answers to the two prompts, already stripped. The
  inner handler catches \<open>cv2.error\<close> only and plays the video again through
  Matplotlib; every other exception reaches the outer handler, which prints it.
  \<open>KeyboardInterrupt\<close> is asynchronous and has no place in the model.
\<close>

definition video_choice ::
  "ext \<Rightarrow> world \<Rightarrow> source \<Rightarrow> pystr \<Rightarrow> event list option" where
  "video_choice E W src fallback =
     (case play_video E W src (easyocr_Reader W) False of
        None \<Rightarrow> None
      | Some (tr, None) \<Rightarrow> Some tr
      | Some (tr, Some CvError) \<Rightarrow>
          (case play_video E W src (easyocr_Reader W) True of
             None \<Rightarrow> None
           | Some (tr2, None) \<Rightarrow> Some (tr @ [Print fallback] @ tr2)
           | Some (tr2, Some e) \<Rightarrow>
               Some (tr @ [Print fallback] @ tr2
                     @ [Print (py ''An error occurred: '' @ error_str W e)]))
      | Some (tr, Some e) \<Rightarrow>
          Some (tr @ [Print (py ''An error occurred: '' @ error_str W e)]))"

definition menu :: "event list" where
  "menu = [Print (py ''License Plate Recognition System''),
           Print (py ''===============================''),
           Print (py ''1. Process Video''),
           Print (py ''2. Use Webcam''),
           Print (py ''3. Process Image''),
           Input (py ''Enter your choice (1-3): ''),
           MakeReader]"

definition main :: "ext \<Rightarrow> world \<Rightarrow> pystr \<Rightarrow> pystr \<Rightarrow> event list option" where
  "main E W choice path =
     (if choice = py ''1'' then
        map_option (\<lambda>tr. menu @ [Input (py ''Enter video file path: '')] @ tr)
          (video_choice E W (File path)
             (py ''Falling back to Matplotlib for video display...''))
      else if choice = py ''2'' then
        map_option (\<lambda>tr. menu @ tr)
          (video_choice E W Webcam (py ''Falling back to Matplotlib for webcam feed...''))
      else if choice = py ''3'' then
        (case process_image E W path (easyocr_Reader W) of
           (tr, None) \<Rightarrow> Some (menu @ [Input (py ''Enter image file path: '')] @ tr)
         | (tr, Some e) \<Rightarrow>
             Some (menu @ [Input (py ''Enter image file path: '')] @ tr
                   @ [Print (py ''An error occurred: '' @ error_str W e)]))
      else Some menu)"

section \<open>Vocabulary of the specification\<close>

text \<open>
  What the specification calls a conforming sequence of a format pattern, written
  without reference to how the matcher searches: the text splits into one run per
  piece, each run within the piece's bounds and inside its class.
\<close>

fun conforms :: "pattern \<Rightarrow> pystr \<Rightarrow> bool" where
  "conforms [] u = (u = [])"
| "conforms (Piece a lo hi # ps) u =
     (\<exists>k. lo \<le> k \<and> k \<le> hi \<and> k \<le> length u \<and> (\<forall>c \<in> set (take k u). atom_ok a c)
          \<and> conforms ps (drop k u))"

text \<open>A pattern matches as a prefix: the text begins with a conforming sequence.\<close>

definition matches_prefix :: "pattern \<Rightarrow> pystr \<Rightarrow> bool" where
  "matches_prefix p s = (\<exists>u v. s = u @ v \<and> conforms p u)"

text \<open>The label of the first pattern of the table that matches, else the sentinel.\<close>

definition first_match_spec :: "(string \<times> pattern) list \<Rightarrow> pystr \<Rightarrow> string" where
  "first_match_spec tbl s =
     (case find (\<lambda>(country, p). matches_prefix p s) tbl of
        None \<Rightarrow> ''Unknown''
      | Some (country, p) \<Rightarrow> country)"

text \<open>The text begins with one of \<open>A\<close> to \<open>Z\<close> or \<open>0\<close> to \<open>9\<close>.\<close>

definition starts_with_upper_or_digit :: "pystr \<Rightarrow> bool" where
  "starts_with_upper_or_digit s =
     (case s of
        [] \<Rightarrow> False
      | c # cs \<Rightarrow> (of_char CHR ''A'' \<le> c \<and> c \<le> of_char CHR ''Z'')
                \<or> (of_char CHR ''0'' \<le> c \<and> c \<le> of_char CHR ''9''))"

text \<open>
  The string with all spaces removed, written out character by character. A space is
  the character U+0020; other whitespace is not a space.
\<close>

fun spaces_removed :: "pystr \<Rightarrow> pystr" where
  "spaces_removed [] = []"
| "spaces_removed (c # cs) = (if c = 32 then spaces_removed cs else c # spaces_removed cs)"

text \<open>Normalised text, and the plates the acceptance filter makes of a result list.\<close>

definition normalized :: "ext \<Rightarrow> pystr \<Rightarrow> pystr" where
  "normalized E text = filter (\<lambda>e. isalnum E e \<or> isspace E e) text"

definition accepted :: "ext \<Rightarrow> ocr_result list \<Rightarrow> plate list" where
  "accepted E results =
     map (\<lambda>(bbox, text, prob). (normalized E text, detect_country (normalized E text), prob))
       (filter (\<lambda>(bbox, text, prob). \<not> prob < 0.2 \<and> 4 \<le> length (normalized E text)) results)"

text \<open>The geometric conditions of the region proposer, on a contour and its crop.\<close>

definition region_admissible :: "ext \<Rightarrow> contour \<Rightarrow> image \<Rightarrow> bool" where
  "region_admissible E cnt roi =
     (1000 \<le> contourArea E cnt
      \<and> 4 \<le> length (approxPolyDP E cnt (0.02 * arcLength E cnt True) True)
      \<and> (case boundingRect E cnt of (x, y, w, h) \<Rightarrow>
            h \<noteq> 0 \<and> 1.5 \<le> real w / real h \<and> real w / real h \<le> 5.0)
      \<and> 80 \<le> shape1 roi \<and> 20 \<le> length roi)"

text \<open>
  The annotation of one plate at a bounding rectangle: its label, then its rectangle.
  The frame as annotated so far is the input frame with the annotations of the trace
  applied in order.
\<close>

definition annotate :: "ext \<Rightarrow> nat \<times> nat \<times> nat \<times> nat \<Rightarrow> plate \<Rightarrow> image \<Rightarrow> image" where
  "annotate E r p fr =
     (case (r, p) of ((x, y, w, h), (text, country, prob)) \<Rightarrow>
        rectangle E
          (putText E fr (text @ py '' ('' @ py country @ py '') '' @ format_2f E prob)
             (int x, int y - 10) 0.8 (0, 255, 0) 2)
          (x, y) (x + w, y + h) (0, 255, 0) 2)"

fun annotated :: "ext \<Rightarrow> image \<Rightarrow> action list \<Rightarrow> image" where
  "annotated E fr [] = fr"
| "annotated E fr (Readtext cnt roi # tr) = annotated E fr tr"
| "annotated E fr (Draw r p # tr) = annotated E (annotate E r p fr) tr"

text \<open>
  Every image handed to OCR is the rectangle, at the contour's bounding box, of the
  frame as annotated by the drawings before the call.
\<close>

fun views_ok :: "ext \<Rightarrow> image \<Rightarrow> action list \<Rightarrow> bool" where
  "views_ok E fr [] = True"
| "views_ok E fr (Readtext cnt roi # tr) =
     (roi = crop fr (boundingRect E cnt) \<and> views_ok E fr tr)"
| "views_ok E fr (Draw r p # tr) = views_ok E (annotate E r p fr) tr"

text \<open>The contours \<open>process_frame\<close> iterates over.\<close>

definition contours_of :: "ext \<Rightarrow> image \<Rightarrow> contour list" where
  "contours_of E frame0 = findContours E (Canny E (fst (preprocess_image E frame0)) 30 200)"

text \<open>
  Every image handed to OCR is the rectangle of the given frame at the contour's
  bounding box.
\<close>

definition crops_of :: "ext \<Rightarrow> image \<Rightarrow> (contour \<times> image) list \<Rightarrow> bool" where
  "crops_of E frame0 calls = list_all (\<lambda>(cnt, roi). roi = crop frame0 (boundingRect E cnt)) calls"

section \<open>A concrete environment\<close>

text \<open>
  Stand-ins for the collaborators, for running the model on concrete frames.
  \<open>ascii_isalnum\<close> and \<open>ascii_isspace\<close> are \<open>str.isalnum\<close> and \<open>str.isspace\<close> on
  ASCII code points. \<open>draw_outline\<close> paints the pixels on the four sides of the
  rectangle, which \<open>cv2.rectangle\<close> paints for every positive thickness. The image
  analysis reports the given contours, each with the measures \<open>cv2\<close> gives for the
  boundary of an 80 by 20 rectangle at the origin; the label is not rendered (its
  baseline lies ten rows above the top of the frame).
\<close>

definition ascii_isalnum :: "pychar \<Rightarrow> bool" where
  "ascii_isalnum c = ((48 \<le> c \<and> c \<le> 57) \<or> (65 \<le> c \<and> c \<le> 90) \<or> (97 \<le> c \<and> c \<le> 122))"

definition ascii_isspace :: "pychar \<Rightarrow> bool" where
  "ascii_isspace c = ((9 \<le> c \<and> c \<le> 13) \<or> (28 \<le> c \<and> c \<le> 32))"

definition draw_outline ::
  "image \<Rightarrow> nat \<times> nat \<Rightarrow> nat \<times> nat \<Rightarrow> color \<Rightarrow> nat \<Rightarrow> image" where
  "draw_outline img p1 p2 col thickness =
     (case (p1, p2) of ((x1, y1), (x2, y2)) \<Rightarrow>
        map (\<lambda>i. map (\<lambda>j. if ((i = y1 \<or> i = y2) \<and> x1 \<le> j \<and> j \<le> x2)
                               \<or> ((j = x1 \<or> j = x2) \<and> y1 \<le> i \<and> i \<le> y2)
                            then col else img ! i ! j)
                   [0..<length (img ! i)])
          [0..<length img])"

definition plate_contour :: contour where
  "plate_contour = [(0, 0), (79, 0), (79, 19), (0, 19)]"

definition bench :: "contour list \<Rightarrow> ext" where
  "bench cs =
     \<lparr>isalnum = ascii_isalnum, isspace = ascii_isspace, format_2f = (\<lambda>p. py ''0.90''),
      cvtColor = map (map (\<lambda>(b, g, r). (b + g + r) div 3)), clahe_apply = (\<lambda>g. g),
      bilateralFilter = (\<lambda>g d sc ss. g), Canny = (\<lambda>g lo hi. g),
      findContours = (\<lambda>g. cs), contourArea = (\<lambda>c. 1501), arcLength = (\<lambda>c closed. 196),
      approxPolyDP = (\<lambda>c eps closed. c), boundingRect = (\<lambda>c. (0, 0, 80, 20)),
      putText = (\<lambda>img txt org scale col thickness. img), rectangle = draw_outline\<rparr>"

definition black_frame :: image where
  "black_frame = replicate 20 (replicate 80 (0, 0, 0))"

definition reads :: "pystr \<Rightarrow> real \<Rightarrow> reader" where
  "reads text prob = (\<lambda>roi. [(plate_contour, text, prob)])"

definition offline :: world where
  "offline = \<lparr>imread = (\<lambda>p. None), isOpened = (\<lambda>s. False), cap_read = (\<lambda>s n. None),
              waitKey = (\<lambda>n. - 1), imshow_raises = False,
              easyocr_Reader = (\<lambda>roi. []), error_str = (\<lambda>e. [])\<rparr>"

definition mixed_lines :: reader where
  "mixed_lines = (\<lambda>roi. [(plate_contour, py ''KA01AB1234'', 1 / 2),
                        (plate_contour, py ''AB1'', 9 / 10),
                        (plate_contour, py ''XYZ-123'', 9 / 10),
                        (plate_contour, py ''noise'', 1 / 10),
                        (plate_contour, py ''ab 12'', 3 / 10)])"

definition painted :: image where
  "painted = draw_outline black_frame (0, 0) (80, 20) (0, 255, 0) 2"

section \<open>Invariant of the frame\<close>

text \<open>
  As long as nothing has been drawn, the frame is the input frame, and every image
  handed to OCR before the first drawing is a rectangle of the input frame.
\<close>

definition untouched :: "ext \<Rightarrow> image \<Rightarrow> pstate \<Rightarrow> bool" where
  "untouched E frame0 st =
     (((\<forall>a \<in> set (trace st). \<not> is_Draw a) \<longrightarrow> frame st = frame0)
      \<and> crops_of E frame0 (ocr_calls (takeWhile (\<lambda>a. \<not> is_Draw a) (trace st))))"

text \<open>
  The frame is the input frame as annotated by the trace, and every image handed to
  OCR is a rectangle of the frame as annotated before the call.
\<close>

definition tracked :: "ext \<Rightarrow> image \<Rightarrow> pstate \<Rightarrow> bool" where
  "tracked E frame0 st =
     (frame st = annotated E frame0 (trace st) \<and> views_ok E frame0 (trace st))"

section \<open>Properties of the matcher\<close>

lemma first_some_None: "first_some f ks = None \<longleftrightarrow> (\<forall>k \<in> set ks. f k = None)"
  by (induction ks) (auto split: option.splits)

lemma le_length_takeWhile:
  "k \<le> length (takeWhile P xs) \<longleftrightarrow> k \<le> length xs \<and> (\<forall>c \<in> set (take k xs). P c)"
proof (induction xs arbitrary: k)
  case Nil
  then show ?case by simp
next
  case (Cons x xs)
  then show ?case by (cases k) auto
qed

lemma run_bound:
  "k \<le> length (takeWhile P (take hi s)) \<longleftrightarrow>
     k \<le> hi \<and> k \<le> length s \<and> (\<forall>c \<in> set (take k s). P c)"
  by (auto simp: le_length_takeWhile min_def take_take)

lemma re_match_piece_None:
  "re_match (Piece a lo hi # ps) s = None \<longleftrightarrow>
     (\<forall>k. lo \<le> k \<and> k \<le> hi \<and> k \<le> length s \<and> (\<forall>c \<in> set (take k s). atom_ok a c)
          \<longrightarrow> re_match ps (drop k s) = None)"
  by (auto simp: first_some_None Let_def run_bound less_Suc_eq_le simp del: upt_Suc)

lemma re_match_iff: "re_match p s \<noteq> None \<longleftrightarrow> matches_prefix p s"
proof (induction p arbitrary: s)
  case Nil
  show ?case by (simp add: matches_prefix_def)
next
  case (Cons pc ps)
  obtain a lo hi where pc: "pc = Piece a lo hi" by (cases pc)
  show ?case
  proof
    assume "re_match (pc # ps) s \<noteq> None"
    then obtain k where k: "lo \<le> k" "k \<le> hi" "k \<le> length s"
        "\<forall>c \<in> set (take k s). atom_ok a c" "re_match ps (drop k s) \<noteq> None"
      unfolding pc re_match_piece_None by blast
    from k(5) Cons.IH obtain u v where uv: "drop k s = u @ v" "conforms ps u"
      unfolding matches_prefix_def by blast
    have "s = (take k s @ u) @ v" using uv(1) by (metis append_assoc append_take_drop_id)
    moreover have "conforms (pc # ps) (take k s @ u)"
      unfolding pc using k uv(2) by (auto intro!: exI[of _ k])
    ultimately show "matches_prefix (pc # ps) s" unfolding matches_prefix_def by blast
  next
    assume "matches_prefix (pc # ps) s"
    then obtain u v k where uv: "s = u @ v" and k: "lo \<le> k" "k \<le> hi" "k \<le> length u"
        "\<forall>c \<in> set (take k u). atom_ok a c" "conforms ps (drop k u)"
      unfolding matches_prefix_def pc by auto
    have "matches_prefix ps (drop k s)"
      unfolding matches_prefix_def using uv k(3,5) by (intro exI[of _ "drop k u"] exI[of _ v]) simp
    then have "re_match ps (drop k s) \<noteq> None" using Cons.IH by blast
    moreover have "take k s = take k u" using uv k(3) by simp
    ultimately have "\<not> (\<forall>k. lo \<le> k \<and> k \<le> hi \<and> k \<le> length s
          \<and> (\<forall>c \<in> set (take k s). atom_ok a c) \<longrightarrow> re_match ps (drop k s) = None)"
      using k uv by (intro notI) (metis length_append trans_le_add1)
    then show "re_match (pc # ps) s \<noteq> None"
      unfolding pc re_match_piece_None .
  qed
qed

lemma re_match_None_iff: "re_match p s = None \<longleftrightarrow> \<not> matches_prefix p s"
  using re_match_iff [of p s] by blast

lemma detect_country_in_spec:
  "detect_country_in tbl text = first_match_spec tbl (remove_spaces text)"
  by (induction tbl) (auto simp: first_match_spec_def re_match_None_iff)


lemma re_match_wrong_first:
  assumes "1 \<le> lo" and "s = [] \<or> \<not> atom_ok a (hd s)"
  shows "re_match (Piece a lo hi # ps) s = None"
  unfolding re_match_piece_None
proof (intro allI impI)
  fix k
  assume k: "lo \<le> k \<and> k \<le> hi \<and> k \<le> length s \<and> (\<forall>c \<in> set (take k s). atom_ok a c)"
  with assms(1) obtain k' where k': "k = Suc k'" by (cases k) auto
  with k assms(2) have False by (cases s) auto
  then show "re_match ps (drop k s) = None" ..
qed

lemma re_match_first_char:
  assumes "re_match (Piece a lo hi # ps) s \<noteq> None" and "1 \<le> lo"
  shows "\<exists>c cs. s = c # cs \<and> atom_ok a c"
proof -
  have "\<not> (s = [] \<or> \<not> atom_ok a (hd s))"
  proof
    assume "s = [] \<or> \<not> atom_ok a (hd s)"
    with assms(2) have "re_match (Piece a lo hi # ps) s = None"
      by (rule re_match_wrong_first)
    with assms(1) show False by simp
  qed
  then show ?thesis by (cases s) simp_all
qed

lemma re_match_single_class:
  "re_match [Piece a 1 7] (c # cs) = None \<longleftrightarrow> \<not> atom_ok a c"
proof
  assume "re_match [Piece a 1 7] (c # cs) = None"
  then have "\<not> (1 \<le> (1::nat) \<and> (1::nat) \<le> 7 \<and> 1 \<le> length (c # cs)
      \<and> (\<forall>x \<in> set (take 1 (c # cs)). atom_ok a x))"
    unfolding re_match_piece_None by (metis option.distinct(1) re_match.simps(1))
  then show "\<not> atom_ok a c" by simp
next
  assume "\<not> atom_ok a c"
  then show "re_match [Piece a 1 7] (c # cs) = None"
    by (intro re_match_wrong_first) simp_all
qed

lemma detect_country_cases:
  "detect_country text =
     (if starts_with_upper_or_digit (remove_spaces text) then ''USA'' else ''Unknown'')"
proof (cases "remove_spaces text")
  case Nil
  then show ?thesis
    by (simp add: detect_country_def LICENSE_PLATE_PATTERNS_def starts_with_upper_or_digit_def)
next
  case (Cons c cs)
  show ?thesis
  proof (cases "starts_with_upper_or_digit (c # cs)")
    case True
    then have "atom_ok (Chars [(CHR ''A'', CHR ''Z''), (CHR ''0'', CHR ''9'')]) c"
      by (simp add: starts_with_upper_or_digit_def)
    then have "re_match [Piece (Chars [(CHR ''A'', CHR ''Z''), (CHR ''0'', CHR ''9'')]) 1 7] (c # cs) \<noteq> None"
      by (simp only: re_match_single_class) simp
    then show ?thesis using True Cons
      by (simp add: detect_country_def LICENSE_PLATE_PATTERNS_def del: re_match.simps)
  next
    case False
    then have no: "\<not> atom_ok (Chars [(CHR ''A'', CHR ''Z''), (CHR ''0'', CHR ''9'')]) c"
        "\<not> atom_ok (Chars [(CHR ''A'', CHR ''Z'')]) c"
      by (simp_all add: starts_with_upper_or_digit_def)
    have none: "re_match (Piece a lo hi # ps) (c # cs) = None" if "\<not> atom_ok a c" "1 \<le> lo"
      for a lo hi ps
      using that by (intro re_match_wrong_first) simp_all
    show ?thesis using False Cons no
      by (simp add: detect_country_def LICENSE_PLATE_PATTERNS_def none del: re_match.simps atom_ok.simps)
  qed
qed

text \<open>
  C2. With the table in its declared order the text \<open>XYZ123\<close> is labelled \<open>USA\<close>, not
  \<open>Canada\<close>; and whenever the pattern stored under \<open>Canada\<close> matches the
  space-stripped text, the matcher answers \<open>USA\<close>, so never \<open>Canada\<close>.
\<close>

theorem canada_shadowed_by_usa:
  "detect_country (py ''XYZ123'') = ''USA'' \<and> detect_country (py ''XYZ123'') \<noteq> ''Canada'' \<and>
   (map_of LICENSE_PLATE_PATTERNS ''Canada'' = Some pat \<and> re_match pat (remove_spaces text) \<noteq> None
      \<longrightarrow> detect_country text = ''USA'' \<and> detect_country text \<noteq> ''Canada'')"
proof -
  have a: "detect_country (py ''XYZ123'') = ''USA''"
    by (simp add: detect_country_cases starts_with_upper_or_digit_def py_def remove_spaces_def)
  have b: "detect_country text = ''USA''"
    if "map_of LICENSE_PLATE_PATTERNS ''Canada'' = Some pat" "re_match pat (remove_spaces text) \<noteq> None"
  proof -
    from that(1) have pat: "pat = [Piece (Chars [(CHR ''A'', CHR ''Z''), (CHR ''0'', CHR ''9'')]) 1 7]"
      by (simp add: LICENSE_PLATE_PATTERNS_def)
    from that(2) obtain c cs where s: "remove_spaces text = c # cs"
        and ok: "atom_ok (Chars [(CHR ''A'', CHR ''Z''), (CHR ''0'', CHR ''9'')]) c"
      unfolding pat using re_match_first_char by blast
    then show ?thesis
      by (simp add: detect_country_cases starts_with_upper_or_digit_def)
  qed
  show ?thesis using a b by auto
qed

theorem canada_shadowed_by_usa_witness:
  "map_of LICENSE_PLATE_PATTERNS ''Canada''
      = Some [Piece (Chars [(CHR ''A'', CHR ''Z''), (CHR ''0'', CHR ''9'')]) 1 7] \<and>
   re_match [Piece (Chars [(CHR ''A'', CHR ''Z''), (CHR ''0'', CHR ''9'')]) 1 7]
      (remove_spaces (py ''ABC 1234'')) \<noteq> None \<and>
   detect_country (py ''ABC 1234'') = ''USA''"
  using canada_shadowed_by_usa
    [of "[Piece (Chars [(CHR ''A'', CHR ''Z''), (CHR ''0'', CHR ''9'')]) 1 7]" "py ''ABC 1234''"]
  by (simp add: LICENSE_PLATE_PATTERNS_def py_def remove_spaces_def)

lemma remove_spaces_eq: "remove_spaces s = spaces_removed s"
  by (induction s) (simp_all add: remove_spaces_def)

text \<open>
  C3. On a text made of alphanumeric characters and whitespace only, the matcher
  answers \<open>USA\<close> when the text with all its spaces removed begins with a letter \<open>A\<close>
  to \<open>Z\<close> or a digit \<open>0\<close> to \<open>9\<close>, and \<open>Unknown\<close> otherwise; it never answers
  \<open>India\<close>, \<open>Nepal\<close>, \<open>Australia\<close> or \<open>Canada\<close>. Put differently, the answer is
  decided by the first character of the text that is not a space.
\<close>

theorem matcher_on_filtered_text:
  assumes "\<forall>c \<in> set text. isalnum E c \<or> isspace E c"
  shows "detect_country text =
           (if starts_with_upper_or_digit (spaces_removed text) then ''USA'' else ''Unknown'')
         \<and> detect_country text =
           (case dropWhile (\<lambda>c. c = 32) text of
              [] \<Rightarrow> ''Unknown''
            | c # cs \<Rightarrow> if (65 \<le> c \<and> c \<le> 90) \<or> (48 \<le> c \<and> c \<le> 57) then ''USA''
                       else ''Unknown'')
         \<and> detect_country text \<notin> {''India'', ''Nepal'', ''Australia'', ''Canada''}"
proof -
  have sr: "spaces_removed s = (case dropWhile (\<lambda>c. c = 32) s of
      [] \<Rightarrow> [] | c # cs \<Rightarrow> c # spaces_removed cs)" for s
    by (induction s) simp_all
  show ?thesis
  proof (cases "dropWhile (\<lambda>c. c = 32) text")
    case Nil
    have "spaces_removed text = []"
      by (subst sr) (simp only: Nil list.case)
    then show ?thesis unfolding Nil
      by (simp add: detect_country_cases remove_spaces_eq starts_with_upper_or_digit_def)
  next
    case (Cons c cs)
    have "spaces_removed text = c # spaces_removed cs"
      by (subst sr) (simp only: Cons list.case)
    then show ?thesis unfolding Cons
      by (simp add: detect_country_cases remove_spaces_eq starts_with_upper_or_digit_def)
  qed
qed

theorem matcher_on_filtered_text_witness:
  "list_all (\<lambda>c. isalnum (bench []) c \<or> isspace (bench []) c) (py '' A1 B2'')
   \<and> spaces_removed (py '' A1 B2'') = py ''A1B2''
   \<and> detect_country (py '' A1 B2'') = ''USA''
   \<and> list_all (\<lambda>c. isalnum (bench []) c \<or> isspace (bench []) c) (py ''  a1 B2'')
   \<and> spaces_removed (py ''  a1 B2'') = py ''a1B2''
   \<and> detect_country (py ''  a1 B2'') = ''Unknown''
   \<and> list_all (\<lambda>c. isalnum (bench []) c \<or> isspace (bench []) c) (9 # py ''A1'')
   \<and> spaces_removed (9 # py ''A1'') = 9 # py ''A1''
   \<and> detect_country (9 # py ''A1'') = ''Unknown''"
  using matcher_on_filtered_text [of "py '' A1 B2''" "bench []"]
    matcher_on_filtered_text [of "py ''  a1 B2''" "bench []"]
    matcher_on_filtered_text [of "9 # py ''A1''" "bench []"]
  by (simp add: py_def bench_def ascii_isalnum_def ascii_isspace_def
      starts_with_upper_or_digit_def list_all_iff)

text \<open>
  C7. The matcher goes through the table in its declared order and answers the label
  of the first pattern that matches as a prefix of the space-stripped text, trailing
  characters allowed, and \<open>Unknown\<close> when none matches. This holds for the table of
  the program and for any other table.
\<close>

theorem detect_country_first_match:
  "detect_country text = first_match_spec LICENSE_PLATE_PATTERNS (remove_spaces text)
   \<and> detect_country_in tbl text = first_match_spec tbl (remove_spaces text)"
  by (simp add: detect_country_def detect_country_in_spec)

theorem detect_country_first_match_witness:
  "first_match_spec LICENSE_PLATE_PATTERNS (remove_spaces (py ''AB 12 CD 3456'')) = ''USA''
   \<and> first_match_spec (rev LICENSE_PLATE_PATTERNS) (remove_spaces (py ''AB 12 CD 3456'')) = ''Canada''
   \<and> first_match_spec (tl LICENSE_PLATE_PATTERNS) (remove_spaces (py ''AB 12 CD 3456'')) = ''India''
   \<and> first_match_spec LICENSE_PLATE_PATTERNS (remove_spaces (py ''ab-12'')) = ''Unknown''"
  using detect_country_first_match [of "py ''AB 12 CD 3456''" "rev LICENSE_PLATE_PATTERNS"]
        detect_country_first_match [of "py ''AB 12 CD 3456''" "tl LICENSE_PLATE_PATTERNS"]
        detect_country_first_match [of "py ''ab-12''" "[]"]
  by (simp add: detect_country_def LICENSE_PLATE_PATTERNS_def py_def remove_spaces_def)

section \<open>Properties of the frame pipeline\<close>

lemma ocr_calls_append: "ocr_calls (a @ b) = ocr_calls a @ ocr_calls b"
  by (induction a rule: ocr_calls.induct) simp_all

lemma result_body_cases:
  "result_body E r (bbox, text, prob) st =
     (if \<not> prob < 0.2 \<and> 4 \<le> length (normalized E text) then
        st\<lparr>frame := annotate E r
                 (normalized E text, detect_country (normalized E text), prob) (frame st),
            detected_plates := detected_plates st
               @ [(normalized E text, detect_country (normalized E text), prob)],
            trace := trace st
               @ [Draw r (normalized E text, detect_country (normalized E text), prob)]\<rparr>
      else st)"
  by (cases r) (simp add: result_body_def normalized_def annotate_def Let_def)

lemma result_body_plates:
  "detected_plates (result_body E r res st) = detected_plates st @ accepted E [res]"
  by (cases res) (simp add: result_body_cases accepted_def)

lemma result_body_calls:
  "ocr_calls (trace (result_body E r res st)) = ocr_calls (trace st)"
  by (cases res) (simp add: result_body_cases ocr_calls_append)

lemma accepted_append: "accepted E (a @ b) = accepted E a @ accepted E b"
  by (simp add: accepted_def)

lemma results_loop_plates:
  "detected_plates (results_loop E r rs st) = detected_plates st @ accepted E rs"
proof (induction rs arbitrary: st)
  case Nil
  show ?case by (simp add: accepted_def)
next
  case (Cons res rs)
  have "accepted E (res # rs) = accepted E [res] @ accepted E rs"
    using accepted_append [of E "[res]" rs] by simp
  then show ?case by (simp add: Cons.IH result_body_plates)
qed

lemma results_loop_calls:
  "ocr_calls (trace (results_loop E r rs st)) = ocr_calls (trace st)"
  by (induction rs arbitrary: st) (simp_all add: result_body_calls)

text \<open>What the body of the contour loop does, by whether OCR is reached.\<close>

lemma contour_body_admitted:
  assumes "region_admissible E cnt (crop (frame st) (boundingRect E cnt))"
  shows "contour_body E rd cnt st =
           Inr (results_loop E (boundingRect E cnt) (rd (crop (frame st) (boundingRect E cnt)))
                  (st\<lparr>trace := trace st @ [Readtext cnt (crop (frame st) (boundingRect E cnt))]\<rparr>))"
  using assms
  by (cases "boundingRect E cnt")
     (auto simp: contour_body_def region_admissible_def Let_def not_less)

lemma contour_body_skipped:
  assumes "\<not> region_admissible E cnt (crop (frame st) (boundingRect E cnt))"
  shows "final_state (contour_body E rd cnt st) = st"
  using assms
  by (cases "boundingRect E cnt")
     (auto simp: contour_body_def region_admissible_def Let_def not_less not_le)


lemma contour_body_final:
  "final_state (contour_body E rd cnt st) =
     (if region_admissible E cnt (crop (frame st) (boundingRect E cnt)) then
        results_loop E (boundingRect E cnt) (rd (crop (frame st) (boundingRect E cnt)))
          (st\<lparr>trace := trace st @ [Readtext cnt (crop (frame st) (boundingRect E cnt))]\<rparr>)
      else st)"
  by (simp add: contour_body_admitted contour_body_skipped)

lemma contours_loop_invariant:
  assumes step: "\<And>cnt st. P st \<Longrightarrow> P (final_state (contour_body E rd cnt st))"
    and init: "P st"
  shows "P (final_state (contours_loop E rd cs st))"
  using init
proof (induction cs arbitrary: st)
  case Nil
  then show ?case by simp
next
  case (Cons cnt cs)
  show ?case
  proof (cases "contour_body E rd cnt st")
    case (Inl e)
    with step [OF Cons.prems, of cnt] show ?thesis by simp
  next
    case (Inr st')
    with step [OF Cons.prems, of cnt] have "P st'" by simp
    then show ?thesis using Inr Cons.IH by simp
  qed
qed

lemma process_frame_loop:
  "process_frame E frame0 rd =
     contours_loop E rd (contours_of E frame0)
       \<lparr>frame = frame0, detected_plates = [], trace = []\<rparr>"
  by (simp add: process_frame_def preprocess_image_def contours_of_def Let_def)

lemma contour_body_ocr:
  "ocr_calls (trace (final_state (contour_body E rd cnt st))) =
     ocr_calls (trace st) @
       (if region_admissible E cnt (crop (frame st) (boundingRect E cnt))
        then [(cnt, crop (frame st) (boundingRect E cnt))] else [])"
  by (simp add: contour_body_final results_loop_calls ocr_calls_append)

lemma contour_body_plates:
  "detected_plates (final_state (contour_body E rd cnt st)) =
     detected_plates st @
       (if region_admissible E cnt (crop (frame st) (boundingRect E cnt))
        then accepted E (rd (crop (frame st) (boundingRect E cnt))) else [])"
  by (simp add: contour_body_final results_loop_plates)

lemma admissible_calls:
  "list_all (\<lambda>(cnt, roi). region_admissible E cnt roi)
     (ocr_calls (trace (final_state (process_frame E frame0 rd))))"
  unfolding process_frame_loop
  by (rule contours_loop_invariant) (simp_all add: contour_body_ocr)

lemma plates_are_accepted:
  "detected_plates (final_state (process_frame E frame0 rd)) =
     concat (map (\<lambda>(cnt, roi). accepted E (rd roi))
       (ocr_calls (trace (final_state (process_frame E frame0 rd)))))"
  unfolding process_frame_loop
  by (rule contours_loop_invariant) (simp_all add: contour_body_ocr contour_body_plates)

lemma contours_loop_subseq:
  "\<exists>sub. subseq sub cs \<and>
     map fst (ocr_calls (trace (final_state (contours_loop E rd cs st)))) =
       map fst (ocr_calls (trace st)) @ sub"
proof (induction cs arbitrary: st)
  case Nil
  show ?case by simp
next
  case (Cons cnt cs)
  show ?case
  proof (cases "contour_body E rd cnt st")
    case (Inl e)
    then have "final_state (contours_loop E rd (cnt # cs) st) = final_state (contour_body E rd cnt st)"
      by simp
    then have "map fst (ocr_calls (trace (final_state (contours_loop E rd (cnt # cs) st)))) =
        map fst (ocr_calls (trace st)) @
          (if region_admissible E cnt (crop (frame st) (boundingRect E cnt)) then [cnt] else [])"
      by (simp add: contour_body_ocr)
    moreover have "subseq (if region_admissible E cnt (crop (frame st) (boundingRect E cnt))
        then [cnt] else []) (cnt # cs)"
      by simp
    ultimately show ?thesis by blast
  next
    case (Inr st')
    then have st': "st' = final_state (contour_body E rd cnt st)" by simp
    from Cons.IH [of st'] obtain sub where sub: "subseq sub cs"
      "map fst (ocr_calls (trace (final_state (contours_loop E rd cs st')))) =
         map fst (ocr_calls (trace st')) @ sub"
      by blast
    have "final_state (contours_loop E rd (cnt # cs) st) = final_state (contours_loop E rd cs st')"
      using Inr by simp
    moreover have "map fst (ocr_calls (trace st')) = map fst (ocr_calls (trace st)) @
        (if region_admissible E cnt (crop (frame st) (boundingRect E cnt)) then [cnt] else [])"
      unfolding st' by (simp add: contour_body_ocr)
    ultimately have "map fst (ocr_calls (trace (final_state (contours_loop E rd (cnt # cs) st)))) =
        map fst (ocr_calls (trace st)) @
          ((if region_admissible E cnt (crop (frame st) (boundingRect E cnt)) then [cnt] else [])
             @ sub)"
      using sub(2) by simp
    moreover have "subseq ((if region_admissible E cnt (crop (frame st) (boundingRect E cnt))
        then [cnt] else []) @ sub) (cnt # cs)"
      using sub(1) by (auto intro: list_emb_Cons)
    ultimately show ?thesis by blast
  qed
qed

lemma accepted_ok:
  "(t, c, p) \<in> set (accepted E rs) \<Longrightarrow>
     0.2 \<le> p \<and> 4 \<le> length t \<and> (\<forall>ch \<in> set t. isalnum E ch \<or> isspace E ch)
     \<and> c = detect_country t"
  by (auto simp: accepted_def normalized_def)


lemma takeWhile_all: "(\<forall>x \<in> set xs. P x) \<Longrightarrow> takeWhile P xs = xs"
  by simp

lemma untouched_result_body:
  "untouched E frame0 st \<Longrightarrow> untouched E frame0 (result_body E r res st)"
  by (cases res) (auto simp: result_body_cases untouched_def takeWhile_append takeWhile_all)

lemma untouched_results_loop:
  "untouched E frame0 st \<Longrightarrow> untouched E frame0 (results_loop E r rs st)"
  by (induction rs arbitrary: st) (simp_all add: untouched_result_body)

lemma untouched_readtext:
  "untouched E frame0 st \<Longrightarrow>
   untouched E frame0 (st\<lparr>trace := trace st @ [Readtext cnt (crop (frame st) (boundingRect E cnt))]\<rparr>)"
  by (auto simp: untouched_def takeWhile_append ocr_calls_append crops_of_def takeWhile_all)

lemma untouched_contour_body:
  "untouched E frame0 st \<Longrightarrow> untouched E frame0 (final_state (contour_body E rd cnt st))"
  by (simp add: contour_body_final untouched_results_loop untouched_readtext)

lemma untouched_process_frame:
  "untouched E frame0 (final_state (process_frame E frame0 rd))"
  unfolding process_frame_loop
  by (rule contours_loop_invariant) (simp_all add: untouched_contour_body, simp add: untouched_def crops_of_def)

lemma annotated_append: "annotated E fr (a @ b) = annotated E (annotated E fr a) b"
  by (induction E fr a rule: annotated.induct) simp_all

lemma views_ok_append:
  "views_ok E fr (a @ b) = (views_ok E fr a \<and> views_ok E (annotated E fr a) b)"
  by (induction E fr a rule: views_ok.induct) simp_all

lemma views_ok_nth:
  "views_ok E fr tr \<Longrightarrow> i < length tr \<Longrightarrow> tr ! i = Readtext cnt roi \<Longrightarrow>
   roi = crop (annotated E fr (take i tr)) (boundingRect E cnt)"
proof (induction E fr tr arbitrary: i rule: views_ok.induct)
  case (1 E fr)
  then show ?case by simp
next
  case (2 E fr c r tr)
  then show ?case by (cases i) auto
next
  case (3 E fr r p tr)
  then show ?case by (cases i) auto
qed

lemma annotated_no_draw: "\<forall>a \<in> set tr. \<not> is_Draw a \<Longrightarrow> annotated E fr tr = fr"
  by (induction E fr tr rule: annotated.induct) simp_all

lemma tracked_result_body:
  "tracked E frame0 st \<Longrightarrow> tracked E frame0 (result_body E r res st)"
  by (cases res) (simp add: result_body_cases tracked_def annotated_append views_ok_append)

lemma tracked_results_loop:
  "tracked E frame0 st \<Longrightarrow> tracked E frame0 (results_loop E r rs st)"
  by (induction rs arbitrary: st) (simp_all add: tracked_result_body)

lemma tracked_readtext:
  "tracked E frame0 st \<Longrightarrow>
   tracked E frame0 (st\<lparr>trace := trace st @ [Readtext cnt (crop (frame st) (boundingRect E cnt))]\<rparr>)"
  by (simp add: tracked_def annotated_append views_ok_append)

lemma tracked_contour_body:
  "tracked E frame0 st \<Longrightarrow> tracked E frame0 (final_state (contour_body E rd cnt st))"
  by (simp add: contour_body_final tracked_results_loop tracked_readtext)

lemma tracked_process_frame:
  "tracked E frame0 (final_state (process_frame E frame0 rd))"
  unfolding process_frame_loop
  by (rule contours_loop_invariant) (simp_all add: tracked_contour_body, simp add: tracked_def)

subsection \<open>Runs in the concrete environment\<close>

lemma length_draw_outline: "length (draw_outline img p1 p2 col th) = length img"
  by (cases p1; cases p2) (simp add: draw_outline_def)

lemma row_draw_outline:
  "i < length img \<Longrightarrow> length (draw_outline img p1 p2 col th ! i) = length (img ! i)"
  by (cases p1; cases p2) (simp add: draw_outline_def)

lemma pixel_draw_outline:
  "i < length img \<Longrightarrow> j < length (img ! i) \<Longrightarrow>
   draw_outline img (x1, y1) (x2, y2) col th ! i ! j =
     (if ((i = y1 \<or> i = y2) \<and> x1 \<le> j \<and> j \<le> x2) \<or> ((j = x1 \<or> j = x2) \<and> y1 \<le> i \<and> i \<le> y2)
      then col else img ! i ! j)"
  by (auto simp: draw_outline_def)

lemma length_crop_full: "length img \<le> h \<Longrightarrow> length (crop img (0, 0, w, h)) = length img"
  by (simp add: crop_def slice_def)

lemma shape1_crop_full:
  "img \<noteq> [] \<Longrightarrow> length img \<le> h \<Longrightarrow> length (img ! 0) \<le> w \<Longrightarrow>
   shape1 (crop img (0, 0, w, h)) = length (img ! 0)"
  by (simp add: crop_def slice_def shape1_def)

lemma pixel_crop_full:
  "img \<noteq> [] \<Longrightarrow> length img \<le> h \<Longrightarrow> length (img ! 0) \<le> w \<Longrightarrow> img ! 0 \<noteq> [] \<Longrightarrow>
   crop img (0, 0, w, h) ! 0 ! 0 = img ! 0 ! 0"
  by (simp add: crop_def slice_def)

lemma crop_black: "crop black_frame (0, 0, 80, 20) = black_frame"
  by (simp add: crop_def slice_def black_frame_def)

lemma black_dims: "length black_frame = 20" "shape1 black_frame = 80" "black_frame \<noteq> []"
  "length (black_frame ! 0) = 80" "black_frame ! 0 ! 0 = (0, 0, 0)"
  by (simp_all add: black_frame_def shape1_def)

lemma bench_admissible:
  "length roi = 20 \<Longrightarrow> shape1 roi = 80 \<Longrightarrow> region_admissible (bench cs) plate_contour roi"
  by (simp add: region_admissible_def bench_def plate_contour_def)

lemma india_text:
  "normalized (bench cs) (py ''AB12CD3456'') = py ''AB12CD3456''"
  "detect_country (py ''AB12CD3456'') = ''USA''"
  "length (py ''AB12CD3456'') = 10"
  by (simp_all add: normalized_def bench_def py_def ascii_isalnum_def ascii_isspace_def
      detect_country_cases starts_with_upper_or_digit_def remove_spaces_def)

lemma painted_dims: "length painted = 20" "painted \<noteq> []" "length (painted ! 0) = 80"
  "painted ! 0 ! 0 = (0, 255, 0)"
  unfolding painted_def
     apply (simp add: length_draw_outline black_dims)
    apply (metis length_draw_outline black_dims(1) length_0_conv zero_neq_numeral)
   apply (simp add: row_draw_outline black_dims)
  apply (simp add: pixel_draw_outline black_dims)
  done

lemma bench_fields:
  "boundingRect (bench cs) c = (0, 0, 80, 20)"
  "rectangle (bench cs) = draw_outline"
  "putText (bench cs) img txt org sc col th = img"
  "contours_of (bench cs) fr = cs"
  by (simp_all add: bench_def contours_of_def preprocess_image_def)

lemma bench_annotate:
  "annotate (bench cs) (0, 0, 80, 20) p fr = draw_outline fr (0, 0) (80, 20) (0, 255, 0) 2"
  by (cases p) (simp add: annotate_def bench_def)

lemma bench_one_contour:
  "process_frame (bench [plate_contour]) black_frame (reads (py ''AB12CD3456'') (9 / 10)) =
     Inr \<lparr>frame = painted,
          detected_plates = [(py ''AB12CD3456'', ''USA'', 9 / 10)],
          trace = [Readtext plate_contour black_frame,
                   Draw (0, 0, 80, 20) (py ''AB12CD3456'', ''USA'', 9 / 10)]\<rparr>"
  by (simp add: process_frame_loop bench_fields contour_body_admitted bench_admissible
      crop_black black_dims reads_def result_body_cases india_text painted_def bench_annotate)

lemma bench_two_contours:
  "process_frame (bench [plate_contour, plate_contour]) black_frame
       (reads (py ''AB12CD3456'') (9 / 10)) =
     Inr \<lparr>frame = draw_outline painted (0, 0) (80, 20) (0, 255, 0) 2,
          detected_plates = [(py ''AB12CD3456'', ''USA'', 9 / 10),
                             (py ''AB12CD3456'', ''USA'', 9 / 10)],
          trace = [Readtext plate_contour black_frame,
                   Draw (0, 0, 80, 20) (py ''AB12CD3456'', ''USA'', 9 / 10),
                   Readtext plate_contour (crop painted (0, 0, 80, 20)),
                   Draw (0, 0, 80, 20) (py ''AB12CD3456'', ''USA'', 9 / 10)]\<rparr>"
proof -
  have adm: "region_admissible (bench cs) plate_contour (crop painted (0, 0, 80, 20))" for cs
    by (rule bench_admissible)
       (simp_all add: length_crop_full shape1_crop_full painted_dims)
  show ?thesis
    by (simp add: process_frame_loop bench_fields contour_body_admitted bench_admissible adm
        crop_black black_dims reads_def result_body_cases india_text bench_annotate
        painted_def [symmetric])
qed

lemma contours_loop_single:
  "final_state (contours_loop E rd [cnt] st) = final_state (contour_body E rd cnt st)"
  by (cases "contour_body E rd cnt st") simp_all

lemma bench_calls:
  "ocr_calls (trace (final_state (process_frame (bench [plate_contour]) black_frame rd)))
     = [(plate_contour, black_frame)]"
  unfolding process_frame_loop bench_fields contours_loop_single
  by (simp add: bench_fields contour_body_ocr bench_admissible crop_black black_dims)

text \<open>
  C1. The claim: a frame with one candidate region, on which OCR returns the single
  result \<open>AB12CD3456\<close> with confidence at least 0.2, yields exactly one plate, with
  country \<open>India\<close>. The run below is such a frame, with confidence 0.9: exactly one
  plate is emitted, and its country is \<open>USA\<close>, because the \<open>USA\<close> pattern comes
  first in the table and matches the first seven characters.
\<close>

theorem india_plate_labelled_usa:
  "map (\<lambda>(t, country, p). country)
     (detected_plates (final_state
        (process_frame (bench [plate_contour]) black_frame (reads (py ''AB12CD3456'') (9 / 10)))))
     = [''USA'']
   \<and> ocr_calls (trace (final_state
        (process_frame (bench [plate_contour]) black_frame (reads (py ''AB12CD3456'') (9 / 10)))))
     = [(plate_contour, black_frame)]
   \<and> reads (py ''AB12CD3456'') (9 / 10) black_frame = [(plate_contour, py ''AB12CD3456'', 9 / 10)]"
proof -
  have "reads (py ''AB12CD3456'') (9 / 10) black_frame = [(plate_contour, py ''AB12CD3456'', 9 / 10)]"
    by (simp add: reads_def)
  then show ?thesis by (simp add: bench_one_contour)
qed

text \<open>
  C4, as stated: every image passed to OCR is the rectangle of the input frame as it
  was before any drawing. It fails when the same rectangle is reached twice, as by the
  outer and the inner contour of one edge: the second image carries the rectangle
  drawn for the plate accepted from the first.
\<close>

theorem later_region_reads_annotated_frame:
  "\<not> crops_of (bench [plate_contour, plate_contour]) black_frame
       (ocr_calls (trace (final_state
          (process_frame (bench [plate_contour, plate_contour]) black_frame
             (reads (py ''AB12CD3456'') (9 / 10))))))"
proof -
  have "painted ! 0 \<noteq> []"
    using painted_dims(3) by auto
  then have "crop painted (0, 0, 80, 20) ! 0 ! 0 = (0, 255, 0)"
    by (simp add: pixel_crop_full painted_dims)
  moreover have "black_frame ! 0 ! 0 = (0, 0, 0)"
    by (rule black_dims)
  ultimately have "crop painted (0, 0, 80, 20) \<noteq> black_frame"
    by auto
  then show ?thesis
    by (simp add: bench_two_contours crops_of_def bench_fields crop_black)
qed

text \<open>
  C4, amended: the image passed to OCR for a region is the rectangle, at the contour's
  bounding box, of the frame as annotated so far: the input frame with the label and
  rectangle drawn for every plate accepted before the call. For a region reached
  before anything is drawn it is the rectangle of the input frame as it was before
  any annotation drawing. The frame returned is the input frame with all annotations.
\<close>

theorem ocr_sees_frame_as_annotated_so_far:
  "(i < length (trace (final_state (process_frame E frame0 rd)))
      \<and> trace (final_state (process_frame E frame0 rd)) ! i = Readtext cnt roi
    \<longrightarrow> roi = crop (annotated E frame0 (take i (trace (final_state (process_frame E frame0 rd)))))
                (boundingRect E cnt)
        \<and> ((\<forall>a \<in> set (take i (trace (final_state (process_frame E frame0 rd)))). \<not> is_Draw a)
             \<longrightarrow> roi = crop frame0 (boundingRect E cnt)))
   \<and> frame (final_state (process_frame E frame0 rd)) =
       annotated E frame0 (trace (final_state (process_frame E frame0 rd)))
   \<and> crops_of E frame0
       (ocr_calls (takeWhile (\<lambda>a. \<not> is_Draw a)
          (trace (final_state (process_frame E frame0 rd)))))"
proof -
  let ?st = "final_state (process_frame E frame0 rd)"
  have t: "tracked E frame0 ?st" by (rule tracked_process_frame)
  have a: "roi = crop (annotated E frame0 (take i (trace ?st))) (boundingRect E cnt)"
    if "i < length (trace ?st)" "trace ?st ! i = Readtext cnt roi"
    using views_ok_nth [OF _ that] t by (simp add: tracked_def)
  have b: "roi = crop frame0 (boundingRect E cnt)"
    if "i < length (trace ?st)" "trace ?st ! i = Readtext cnt roi"
      "\<forall>a \<in> set (take i (trace ?st)). \<not> is_Draw a"
    using a [OF that(1,2)] annotated_no_draw [OF that(3), of E frame0] by simp
  have c: "frame ?st = annotated E frame0 (trace ?st)"
    using t by (simp add: tracked_def)
  have d: "crops_of E frame0 (ocr_calls (takeWhile (\<lambda>a. \<not> is_Draw a) (trace ?st)))"
    using untouched_process_frame [of E frame0 rd] by (simp add: untouched_def)
  show ?thesis using a b c d by blast
qed

theorem ocr_sees_frame_as_annotated_so_far_witness:
  "2 < length (trace (final_state
        (process_frame (bench [plate_contour, plate_contour]) black_frame
           (reads (py ''AB12CD3456'') (9 / 10)))))
   \<and> trace (final_state
        (process_frame (bench [plate_contour, plate_contour]) black_frame
           (reads (py ''AB12CD3456'') (9 / 10)))) ! 2
       = Readtext plate_contour (crop painted (0, 0, 80, 20))
   \<and> annotated (bench [plate_contour, plate_contour]) black_frame
        (take 2 (trace (final_state
           (process_frame (bench [plate_contour, plate_contour]) black_frame
              (reads (py ''AB12CD3456'') (9 / 10))))))
       = painted
   \<and> boundingRect (bench [plate_contour, plate_contour]) plate_contour = (0, 0, 80, 20)
   \<and> crop painted (0, 0, 80, 20) ! 0 ! 0 = (0, 255, 0)"
proof -
  have "painted ! 0 \<noteq> []"
    using painted_dims(3) by auto
  then have "crop painted (0, 0, 80, 20) ! 0 ! 0 = (0, 255, 0)"
    by (simp add: pixel_crop_full painted_dims)
  with ocr_sees_frame_as_annotated_so_far
    [of 2 "bench [plate_contour, plate_contour]" black_frame
        "reads (py ''AB12CD3456'') (9 / 10)" plate_contour "crop painted (0, 0, 80, 20)"]
  show ?thesis
    by (simp add: bench_two_contours bench_fields bench_annotate painted_def [symmetric])
qed

text \<open>
  C5. OCR is called on the region of a contour only if the contour's area is at least
  1000, its approximated polygon has at least 4 vertices, the width to height ratio of
  its bounding rectangle lies between 1.5 and 5.0, so is never 1, and the crop is at
  least 80 wide and 20 tall. This holds for every call made, also in a run that ends
  in an exception.
\<close>

theorem ocr_only_on_admissible_regions:
  assumes "(cnt, roi) \<in> set (ocr_calls (trace (final_state (process_frame E frame0 rd))))"
  shows "1000 \<le> contourArea E cnt
       \<and> 4 \<le> length (approxPolyDP E cnt (0.02 * arcLength E cnt True) True)
       \<and> (case boundingRect E cnt of (x, y, w, h) \<Rightarrow>
            1.5 \<le> real w / real h \<and> real w / real h \<le> 5.0 \<and> real w / real h \<noteq> 1)
       \<and> 80 \<le> shape1 roi \<and> 20 \<le> length roi"
proof -
  from assms admissible_calls [of E frame0 rd] have "region_admissible E cnt roi"
    by (auto simp: list_all_iff)
  then show ?thesis
    by (cases "boundingRect E cnt") (auto simp: region_admissible_def)
qed

theorem ocr_only_on_admissible_regions_witness:
  "(plate_contour, black_frame) \<in> set (ocr_calls (trace (final_state
       (process_frame (bench [plate_contour]) black_frame (reads (py ''AB12CD3456'') (9 / 10))))))
   \<and> 1000 \<le> contourArea (bench [plate_contour]) plate_contour
   \<and> boundingRect (bench [plate_contour]) plate_contour = (0, 0, 80, 20)
   \<and> 80 \<le> shape1 black_frame \<and> 20 \<le> length black_frame"
  using ocr_only_on_admissible_regions
    [of plate_contour black_frame "bench [plate_contour]" black_frame
        "reads (py ''AB12CD3456'') (9 / 10)"]
  by (simp add: bench_one_contour bench_fields)

text \<open>
  C6. Every plate emitted has a confidence of at least 0.2 and a text of at least 4
  characters, so never 3, all of them alphanumeric or whitespace; the text is the
  normalised text of an OCR result of some region, and the confidence is that
  result's.
\<close>

theorem emitted_plates_pass_filter:
  assumes "(t, c, p) \<in> set (detected_plates (final_state (process_frame E frame0 rd)))"
  shows "0.2 \<le> p \<and> 4 \<le> length t \<and> length t \<noteq> 3
       \<and> (\<forall>ch \<in> set t. isalnum E ch \<or> isspace E ch)
       \<and> (\<exists>cnt roi bbox text.
            (cnt, roi) \<in> set (ocr_calls (trace (final_state (process_frame E frame0 rd))))
            \<and> (bbox, text, p) \<in> set (rd roi) \<and> t = normalized E text)"
proof -
  from assms obtain cnt roi
    where call: "(cnt, roi) \<in> set (ocr_calls (trace (final_state (process_frame E frame0 rd))))"
      and acc: "(t, c, p) \<in> set (accepted E (rd roi))"
    by (subst (asm) plates_are_accepted) auto
  from acc obtain bbox raw where "(bbox, raw, p) \<in> set (rd roi)" "t = normalized E raw"
    by (auto simp: accepted_def)
  with call accepted_ok [OF acc] show ?thesis by auto
qed

theorem emitted_plates_pass_filter_witness:
  "(py ''AB12CD3456'', ''USA'', 9 / 10) \<in> set (detected_plates (final_state
       (process_frame (bench [plate_contour]) black_frame (reads (py ''AB12CD3456'') (9 / 10)))))
   \<and> (0.2 :: real) \<le> 9 / 10 \<and> 4 \<le> length (py ''AB12CD3456'')"
  using emitted_plates_pass_filter
    [of "py ''AB12CD3456''" "''USA''" "9 / 10" "bench [plate_contour]" black_frame
        "reads (py ''AB12CD3456'') (9 / 10)"]
  by (simp add: bench_one_contour)

text \<open>
  C8. The plates of a frame are, region by region in the order of the contours, the
  accepted results of each OCR call in the order the engine gave them, one plate per
  accepted result: the contours that reach OCR are a subsequence of the contour list,
  and the plate list is the concatenation over the calls. Nothing sorts by
  confidence: in the run below the confidences come out as 0.5, 0.9, 0.3.
\<close>

theorem plates_in_discovery_order:
  "detected_plates (final_state (process_frame E frame0 rd)) =
     concat (map (\<lambda>(cnt, roi). accepted E (rd roi))
       (ocr_calls (trace (final_state (process_frame E frame0 rd)))))
   \<and> subseq (map fst (ocr_calls (trace (final_state (process_frame E frame0 rd)))))
       (contours_of E frame0)"
proof
  show "detected_plates (final_state (process_frame E frame0 rd)) =
     concat (map (\<lambda>(cnt, roi). accepted E (rd roi))
       (ocr_calls (trace (final_state (process_frame E frame0 rd)))))"
    by (rule plates_are_accepted)
  from contours_loop_subseq [of "contours_of E frame0" E rd
      "\<lparr>frame = frame0, detected_plates = [], trace = []\<rparr>"]
  show "subseq (map fst (ocr_calls (trace (final_state (process_frame E frame0 rd)))))
       (contours_of E frame0)"
    by (auto simp: process_frame_loop)
qed

theorem plates_in_discovery_order_witness:
  "detected_plates (final_state (process_frame (bench [plate_contour]) black_frame mixed_lines))
     = [(py ''KA01AB1234'', ''USA'', 1 / 2), (py ''XYZ123'', ''USA'', 9 / 10),
        (py ''ab 12'', ''Unknown'', 3 / 10)]"
proof -
  have "accepted (bench [plate_contour]) (mixed_lines black_frame) =
      [(py ''KA01AB1234'', ''USA'', 1 / 2), (py ''XYZ123'', ''USA'', 9 / 10),
       (py ''ab 12'', ''Unknown'', 3 / 10)]"
    by (simp add: mixed_lines_def accepted_def normalized_def bench_def py_def
        ascii_isalnum_def ascii_isspace_def detect_country_cases starts_with_upper_or_digit_def
        remove_spaces_def)
  with plates_in_discovery_order [of "bench [plate_contour]" black_frame mixed_lines]
  show ?thesis
    by (simp add: bench_calls)
qed

section \<open>Properties of the front ends\<close>

lemma process_image_unreadable:
  "imread W path = None \<Longrightarrow>
   process_image E W path rd =
     ([Imread path, Print (py ''Error: Cannot load image '' @ path)], None)"
  by (simp add: process_image_def)

lemma play_video_unopened:
  "\<not> isOpened W src \<Longrightarrow>
   play_video E W src rd use_matplotlib =
     Some ([VideoCapture src,
            Print (py ''Error: Unable to open video file: '' @ source_str src)], None)"
  by (simp add: play_video_def)

lemma choices_differ: "py ''1'' \<noteq> py ''2''" "py ''1'' \<noteq> py ''3''" "py ''2'' \<noteq> py ''3''"
  "py ''2'' \<noteq> py ''1''" "py ''3'' \<noteq> py ''1''" "py ''3'' \<noteq> py ''2''"
  by (simp_all add: py_def)

text \<open>
  C10. When \<open>cv2.imread\<close> returns nothing, \<open>process_image\<close> reads once, prints the
  error with the path and returns: no frame is processed and nothing is read again;
  \<open>main\<close> adds nothing after it. When the capture is not opened, \<open>play_video\<close>
  opens once, prints the error with the source and returns; \<open>main\<close> does not call
  it a second time, for a file and for the webcam.
\<close>

theorem unreadable_input_fails_fast:
  "(imread W path = None \<longrightarrow>
      process_image E W path rd =
        ([Imread path, Print (py ''Error: Cannot load image '' @ path)], None)
      \<and> main E W (py ''3'') path =
        Some (menu @ [Input (py ''Enter image file path: ''), Imread path,
                      Print (py ''Error: Cannot load image '' @ path)]))
   \<and> (\<not> isOpened W src \<longrightarrow>
      play_video E W src rd use_matplotlib =
        Some ([VideoCapture src,
               Print (py ''Error: Unable to open video file: '' @ source_str src)], None))
   \<and> (\<not> isOpened W (File path) \<longrightarrow>
      main E W (py ''1'') path =
        Some (menu @ [Input (py ''Enter video file path: ''), VideoCapture (File path),
                      Print (py ''Error: Unable to open video file: '' @ path)]))
   \<and> (\<not> isOpened W Webcam \<longrightarrow>
      main E W (py ''2'') path =
        Some (menu @ [VideoCapture Webcam,
                      Print (py ''Error: Unable to open video file: '' @ py ''0'')]))"
  by (simp add: process_image_unreadable play_video_unopened main_def video_choice_def
      choices_differ)

theorem unreadable_input_fails_fast_witness:
  "imread offline (py ''plate.png'') = None
   \<and> process_image (bench []) offline (py ''plate.png'') (easyocr_Reader offline) =
        ([Imread (py ''plate.png''),
          Print (py ''Error: Cannot load image plate.png'')], None)
   \<and> \<not> isOpened offline (File (py ''plate.png''))
   \<and> play_video (bench []) offline (File (py ''plate.png'')) (easyocr_Reader offline) False =
        Some ([VideoCapture (File (py ''plate.png'')),
               Print (py ''Error: Unable to open video file: plate.png'')], None)
   \<and> main (bench []) offline (py ''1'') (py ''plate.png'') =
        Some (menu @ [Input (py ''Enter video file path: ''),
                      VideoCapture (File (py ''plate.png'')),
                      Print (py ''Error: Unable to open video file: plate.png'')])"
  using unreadable_input_fails_fast
    [of offline "py ''plate.png''" "bench []" "easyocr_Reader offline"
        "File (py ''plate.png'')" False]
  by (simp add: offline_def py_def)

end
